theory Spec2Isabelle
  imports Complex_Main
begin

section \<open>The viewer's inner layout: data\<close>

text \<open>
  The development follows \<^verbatim>\<open>packages/core/src/layouts/Inner.tsx\<close>. Page indices and
  rotations are JavaScript numbers that only ever hold integers here and are modelled as
  \<^typ>\<open>int\<close> (with \<open>-1\<close> as the "no page" value, as in the source); scales, sizes and
  visibility fractions are modelled as \<^typ>\<open>real\<close>. React state variables are fields
  of the record \<open>Inner\<close>, updated in place; the calls the component makes on its
  collaborators (the virtualizer and the \<open>onZoom\<close>, \<open>onRotate\<close>, \<open>onRotatePage\<close>
  callbacks) are appended to the field \<open>effects\<close>.
\<close>

datatype RotateDirection = Backward | Forward

datatype ScrollMode = Horizontal | Vertical | Wrapped

text \<open>The argument of \<open>zoom\<close>: a number, or a special zoom level (a string in the source).\<close>

datatype 'z ZoomLevel = Num real | Special 'z

record PageSize =
  pageHeight :: real
  pageWidth :: real

record Rect =
  height :: real
  width :: real

text \<open>The fields of the viewer state that the component reads or writes.\<close>

record ViewerState =
  pageIndex :: int
  pagesRotation :: "int \<rightharpoonup> int"
  rotatedPage :: "int option"
  rotation :: int
  scale :: real
  scrollMode :: ScrollMode

text \<open>The object literal \<open>pluginMethods\<close>: its keys, each bound to the component's
  function of the same name (shorthand properties).\<close>

datatype PluginMethod =
  GetPagesContainer | GetViewerState | JumpToDestination | JumpToPage | OpenFile
  | Rotate | RotatePage | SetViewerState | SwitchScrollMode | Zoom

type_synonym PluginFunctions = "(string \<times> PluginMethod) list"

text \<open>
  A plugin is an object with optional hooks. \<open>install\<close> and \<open>uninstall\<close> act on the
  plugin side's own world \<open>'w\<close>; \<open>onViewerStateChange\<close> maps a viewer state to a viewer
  state. An absent hook is \<open>None\<close>.
\<close>

record 'w Plugin =
  install :: "(PluginFunctions \<Rightarrow> 'w \<Rightarrow> 'w) option"
  uninstall :: "(PluginFunctions \<Rightarrow> 'w \<Rightarrow> 'w) option"
  onViewerStateChange :: "(ViewerState \<Rightarrow> ViewerState) option"

text \<open>What the component reads from the virtualizer in its last effect.\<close>

record VirtualItem =
  index :: int
  visibility :: real

record Virtualizer =
  startRange :: int
  endRange :: int
  maxVisbilityIndex :: int
  virtualItems :: "VirtualItem list"

datatype Effect =
  ScrollToItem int real real
  | VirtualizerZoom "real option"
  | OnZoom real
  | OnRotate RotateDirection int
  | OnRotatePage RotateDirection int int

section \<open>The render queue\<close>

datatype PageRenderStatus = NotRenderedYet | Rendering | Rendered

record PageVisibility =
  renderStatus :: PageRenderStatus
  q_visibility :: real

record RenderQueue =
  q_startRange :: int
  q_endRange :: int
  visibilities :: "PageVisibility list"

text \<open>An in-place update of the entry of page \<open>i\<close>; an index without an entry changes nothing.\<close>

definition updatePage :: "int \<Rightarrow> (PageVisibility \<Rightarrow> PageVisibility) \<Rightarrow> RenderQueue \<Rightarrow> RenderQueue" where
  "updatePage i f q =
     (if 0 \<le> i \<and> i < int (length (visibilities q))
      then q\<lparr>visibilities := (visibilities q)[nat i := f (visibilities q ! nat i)]\<rparr>
      else q)"

definition statusOf :: "RenderQueue \<Rightarrow> int \<Rightarrow> PageRenderStatus option" where
  "statusOf q i =
     (if 0 \<le> i \<and> i < int (length (visibilities q))
      then Some (renderStatus (visibilities q ! nat i)) else None)"

text \<open>Modelled from the spec: the hook \<^verbatim>\<open>useRenderQueue\<close> is not among the sources. The
  queue tracks a per-page render lifecycle (not-rendered, rendering, rendered);
  \<open>markNotRendered\<close> is the global reset of every page to not-rendered.\<close>

definition markNotRendered :: "RenderQueue \<Rightarrow> RenderQueue" where
  "markNotRendered q =
     q\<lparr>visibilities := map (\<lambda>v. v\<lparr>renderStatus := NotRenderedYet\<rparr>) (visibilities q)\<rparr>"

text \<open>Modelled from the spec: \<open>markRendering\<close> of the missing \<^verbatim>\<open>useRenderQueue\<close> puts the
  page into the rendering state.\<close>

definition markRendering :: "int \<Rightarrow> RenderQueue \<Rightarrow> RenderQueue" where
  "markRendering i q = updatePage i (\<lambda>v. v\<lparr>renderStatus := Rendering\<rparr>) q"

text \<open>Modelled from the spec: \<open>markRendered\<close> of the missing \<^verbatim>\<open>useRenderQueue\<close> puts the
  page into the rendered state.\<close>

definition markRendered :: "int \<Rightarrow> RenderQueue \<Rightarrow> RenderQueue" where
  "markRendered i q = updatePage i (\<lambda>v. v\<lparr>renderStatus := Rendered\<rparr>) q"

text \<open>Modelled from the spec: \<open>setRange\<close> of the missing \<^verbatim>\<open>useRenderQueue\<close> records the
  range of pages that will be rendered.\<close>

definition setRange :: "int \<Rightarrow> int \<Rightarrow> RenderQueue \<Rightarrow> RenderQueue" where
  "setRange a b q = q\<lparr>q_startRange := a, q_endRange := b\<rparr>"

text \<open>Modelled from the spec: \<open>setVisibility\<close> of the missing \<^verbatim>\<open>useRenderQueue\<close> records
  the visibility fraction of a page.\<close>

definition setVisibility :: "int \<Rightarrow> real \<Rightarrow> RenderQueue \<Rightarrow> RenderQueue" where
  "setVisibility i x q = updatePage i (\<lambda>v. v\<lparr>q_visibility := x\<rparr>) q"

text \<open>Modelled from the spec: \<open>isInRange\<close> of the missing \<^verbatim>\<open>useRenderQueue\<close> tests a page
  index against the recorded range.\<close>

definition isInRange :: "int \<Rightarrow> RenderQueue \<Rightarrow> bool" where
  "isInRange i q = (q_startRange q \<le> i \<and> i \<le> q_endRange q)"

text \<open>A page waits for rendering when it is visible (a positive visibility fraction) and
  is not rendered yet.\<close>

definition waiting :: "PageVisibility \<Rightarrow> bool" where
  "waiting v = (0 < q_visibility v \<and> renderStatus v = NotRenderedYet)"

definition candidates :: "RenderQueue \<Rightarrow> (int \<times> real) list" where
  "candidates q =
     map (\<lambda>(i, v). (int i, q_visibility v))
       (filter (\<lambda>(i, v). waiting v) (enumerate 0 (visibilities q)))"

fun pickHighest :: "int \<times> real \<Rightarrow> (int \<times> real) list \<Rightarrow> int \<times> real" where
  "pickHighest best [] = best"
| "pickHighest best (c # cs) = pickHighest (if snd best < snd c then c else best) cs"

text \<open>Modelled from the spec: \<open>getHighestPriorityPage\<close> of the missing \<^verbatim>\<open>useRenderQueue\<close>
  chooses, among the visible-but-unrendered pages, the one with the greatest visibility
  fraction (the first such page when several share it), and answers \<open>-1\<close> when there is
  none. The range is not consulted: \<open>renderNextPage\<close> tests the answer against it.\<close>

definition getHighestPriorityPage :: "RenderQueue \<Rightarrow> int" where
  "getHighestPriorityPage q =
     (case candidates q of [] \<Rightarrow> -1 | c # cs \<Rightarrow> fst (pickHighest c cs))"

text \<open>Readings of the queue used to state its properties: the recorded visibility of a
  page, whether a page is visible inside the range, whether a page (of the range or not) is
  visible and not rendered yet, whether every such page lies in the range, whether no page
  is in the rendering state, and the number of pages that are rendering or wait for
  rendering.\<close>

definition visibilityOf :: "RenderQueue \<Rightarrow> int \<Rightarrow> real" where
  "visibilityOf q i = q_visibility (visibilities q ! nat i)"


definition waitingPage :: "RenderQueue \<Rightarrow> int \<Rightarrow> bool" where
  "waitingPage q i =
     (0 \<le> i \<and> i < int (length (visibilities q)) \<and> 0 < visibilityOf q i
      \<and> statusOf q i = Some NotRenderedYet)"




section \<open>The component\<close>

text \<open>
  The React state and refs of \<open>Inner\<close>. The state variables \<open>rotation\<close>, \<open>scale\<close> and
  \<open>pagesRotation\<close> carry the prefix \<open>st_\<close>, the viewer state having fields of the same
  names. \<open>pagesRef\<close> holds the pages container once it is mounted.
\<close>

record ('e, 'z) Inner =
  currentPage :: int
  st_rotation :: int
  pagesRotationChanged :: bool
  st_pagesRotation :: "int \<rightharpoonup> int"
  currentScrollMode :: ScrollMode
  st_scale :: real
  stateRef :: ViewerState
  keepSpecialZoomLevelRef :: "'z option"
  renderPageIndex :: int
  renderQueueKey :: int
  renderQueue :: RenderQueue
  pagesRef :: "'e option"
  effects :: "Effect list"

definition NUM_OVERSCAN_PAGES :: int where
  "NUM_OVERSCAN_PAGES = 3"

definition estimateSize :: "PageSize \<Rightarrow> ('e, 'z) Inner \<Rightarrow> Rect" where
  "estimateSize pageSize s =
     (let sizes = [pageHeight pageSize, pageWidth pageSize];
          rect = (if \<bar>st_rotation s\<bar> mod 180 = 0
                  then \<lparr>height = sizes ! 0, width = sizes ! 1\<rparr>
                  else \<lparr>height = sizes ! 1, width = sizes ! 0\<rparr>)
      in \<lparr>height = height rect * st_scale s, width = width rect * st_scale s\<rparr>)"

definition setStartRange :: "int \<Rightarrow> int" where
  "setStartRange startIndex = max (startIndex - NUM_OVERSCAN_PAGES) 0"

definition setEndRange :: "int \<Rightarrow> int \<Rightarrow> int" where
  "setEndRange numPages endIndex = min (endIndex + NUM_OVERSCAN_PAGES) (numPages - 1)"

text \<open>Modelled from the spec: the hook \<^verbatim>\<open>useVirtual\<close> is not among the sources. It
  determines the visible window \<open>[startIndex, endIndex]\<close> and reports as its range the
  window passed through the \<open>setStartRange\<close> and \<open>setEndRange\<close> it is given.\<close>

definition useVirtual :: "int \<Rightarrow> int \<Rightarrow> int \<Rightarrow> int \<Rightarrow> VirtualItem list \<Rightarrow> Virtualizer" where
  "useVirtual numPages startIndex endIndex maxVis items =
     \<lparr>startRange = setStartRange startIndex, endRange = setEndRange numPages endIndex,
      maxVisbilityIndex = maxVis, virtualItems = items\<rparr>"

text \<open>The \<open>forEach\<close> of \<open>setViewerState\<close>, with its mutable \<open>newState\<close>.\<close>

fun notifyPlugins :: "'w Plugin list \<Rightarrow> ViewerState \<Rightarrow> ViewerState" where
  "notifyPlugins [] newState = newState"
| "notifyPlugins (plugin # rest) newState =
     notifyPlugins rest
       (case onViewerStateChange plugin of
          Some hook \<Rightarrow> hook newState
        | None \<Rightarrow> newState)"

definition setViewerState :: "'w Plugin list \<Rightarrow> ViewerState \<Rightarrow> ('e, 'z) Inner \<Rightarrow> ('e, 'z) Inner" where
  "setViewerState plugins viewerState s = s\<lparr>stateRef := notifyPlugins plugins viewerState\<rparr>"

definition jumpToPage :: "int \<Rightarrow> int \<Rightarrow> ('e, 'z) Inner \<Rightarrow> ('e, 'z) Inner" where
  "jumpToPage numPages pageIdx s =
     (if 0 \<le> pageIdx \<and> pageIdx < numPages
      then s\<lparr>effects := effects s @ [ScrollToItem pageIdx 0 0]\<rparr>
      else s)"

definition degreesOf :: "RotateDirection \<Rightarrow> int" where
  "degreesOf direction = (if direction = Backward then -90 else 90)"

definition rotate :: "'w Plugin list \<Rightarrow> RotateDirection \<Rightarrow> ('e, 'z) Inner \<Rightarrow> ('e, 'z) Inner" where
  "rotate plugins direction s =
     (let degrees = degreesOf direction;
          currentRotation = rotation (stateRef s);
          updateRotation =
            (if currentRotation = 360 \<or> currentRotation = -360 then degrees
             else currentRotation + degrees);
          s1 = s\<lparr>renderQueue := markNotRendered (renderQueue s)\<rparr>;
          s2 = s1\<lparr>st_rotation := updateRotation\<rparr>;
          s3 = setViewerState plugins ((stateRef s2)\<lparr>rotation := updateRotation\<rparr>) s2
      in s3\<lparr>effects := effects s3 @ [OnRotate direction updateRotation]\<rparr>)"

text \<open>\<open>rotations.set\<close> updates the map held by the viewer state in place; the model writes
  the updated map to both holders.\<close>

definition rotatePage :: "'w Plugin list \<Rightarrow> int \<Rightarrow> RotateDirection \<Rightarrow> ('e, 'z) Inner \<Rightarrow> ('e, 'z) Inner" where
  "rotatePage plugins pageIdx direction s =
     (let degrees = degreesOf direction;
          rotations = pagesRotation (stateRef s);
          currentPageRotation = (case rotations pageIdx of Some r \<Rightarrow> r | None \<Rightarrow> 0);
          finalRotation = currentPageRotation + degrees;
          updateRotations = rotations(pageIdx \<mapsto> finalRotation);
          s1 = s\<lparr>st_pagesRotation := updateRotations\<rparr>;
          s2 = s1\<lparr>pagesRotationChanged := \<not> pagesRotationChanged s1\<rparr>;
          s3 = setViewerState plugins
                 ((stateRef s2)\<lparr>pagesRotation := updateRotations, rotatedPage := Some pageIdx\<rparr>) s2;
          s4 = s3\<lparr>effects := effects s3 @ [OnRotatePage direction pageIdx finalRotation]\<rparr>;
          s5 = s4\<lparr>renderQueue := markRendering pageIdx (renderQueue s4)\<rparr>
      in s5\<lparr>renderPageIndex := pageIdx\<rparr>)"

definition switchScrollMode :: "'w Plugin list \<Rightarrow> ScrollMode \<Rightarrow> ('e, 'z) Inner \<Rightarrow> ('e, 'z) Inner" where
  "switchScrollMode plugins mode s =
     (let s1 = setViewerState plugins ((stateRef s)\<lparr>scrollMode := mode\<rparr>) s
      in s1\<lparr>currentScrollMode := mode\<rparr>)"

text \<open>JavaScript's division of numbers; \<open>None\<close> stands for the non-finite results of a
  division by zero.\<close>

definition js_div :: "real \<Rightarrow> real \<Rightarrow> real option" where
  "js_div a b = (if b = 0 then None else Some (a / b))"

text \<open>\<open>calculateScale\<close> is imported from a file that is not among the sources and is a
  parameter here. \<open>updateScaleOf\<close> is the value that \<open>zoom\<close> binds to \<open>updateScale\<close>.\<close>

definition updateScaleOf ::
  "('e \<Rightarrow> real \<Rightarrow> real \<Rightarrow> 'z \<Rightarrow> real) \<Rightarrow> PageSize \<Rightarrow> 'z ZoomLevel \<Rightarrow> ('e, 'z) Inner \<Rightarrow> real" where
  "updateScaleOf calculateScale pageSize newScale s =
     (case pagesRef s of
        Some pagesEle \<Rightarrow>
          (case newScale of
             Special level \<Rightarrow> calculateScale pagesEle (pageHeight pageSize) (pageWidth pageSize) level
           | Num n \<Rightarrow> n)
      | None \<Rightarrow> 1)"

definition zoom ::
  "('e \<Rightarrow> real \<Rightarrow> real \<Rightarrow> 'z \<Rightarrow> real) \<Rightarrow> PageSize \<Rightarrow> 'w Plugin list \<Rightarrow> 'z ZoomLevel
     \<Rightarrow> ('e, 'z) Inner \<Rightarrow> ('e, 'z) Inner" where
  "zoom calculateScale pageSize plugins newScale s =
     (let updateScale = updateScaleOf calculateScale pageSize newScale s;
          s1 = s\<lparr>keepSpecialZoomLevelRef :=
                   (case newScale of Special level \<Rightarrow> Some level | Num n \<Rightarrow> None)\<rparr>
      in if updateScale = scale (stateRef s1) then s1
         else
           (let s2 = s1\<lparr>effects := effects s1 @ [VirtualizerZoom (js_div updateScale (scale (stateRef s1)))]\<rparr>;
                s3 = s2\<lparr>renderQueueKey := renderQueueKey s2 + 1\<rparr>;
                s4 = s3\<lparr>renderQueue := markNotRendered (renderQueue s3)\<rparr>;
                s5 = s4\<lparr>st_scale := updateScale\<rparr>;
                s6 = s5\<lparr>effects := effects s5 @ [OnZoom updateScale]\<rparr>
            in setViewerState plugins ((stateRef s6)\<lparr>scale := updateScale\<rparr>) s6))"

definition handlePagesResize ::
  "('e \<Rightarrow> real \<Rightarrow> real \<Rightarrow> 'z \<Rightarrow> real) \<Rightarrow> PageSize \<Rightarrow> 'w Plugin list
     \<Rightarrow> ('e, 'z) Inner \<Rightarrow> ('e, 'z) Inner" where
  "handlePagesResize calculateScale pageSize plugins s =
     (case keepSpecialZoomLevelRef s of
        Some level \<Rightarrow>
          zoom calculateScale pageSize plugins (Special level) (s\<lparr>renderPageIndex := -1\<rparr>)
      | None \<Rightarrow> s)"

text \<open>The effect that installs the plugins, and its cleanup.\<close>

definition pluginMethods :: PluginFunctions where
  "pluginMethods =
     [(''getPagesContainer'', GetPagesContainer), (''getViewerState'', GetViewerState),
      (''jumpToDestination'', JumpToDestination), (''jumpToPage'', JumpToPage),
      (''openFile'', OpenFile), (''rotate'', Rotate), (''rotatePage'', RotatePage),
      (''setViewerState'', SetViewerState), (''switchScrollMode'', SwitchScrollMode),
      (''zoom'', Zoom)]"

fun installPlugins :: "'w Plugin list \<Rightarrow> 'w \<Rightarrow> 'w" where
  "installPlugins [] w = w"
| "installPlugins (plugin # rest) w =
     installPlugins rest
       (case install plugin of Some hook \<Rightarrow> hook pluginMethods w | None \<Rightarrow> w)"

fun uninstallPlugins :: "'w Plugin list \<Rightarrow> 'w \<Rightarrow> 'w" where
  "uninstallPlugins [] w = w"
| "uninstallPlugins (plugin # rest) w =
     uninstallPlugins rest
       (case uninstall plugin of Some hook \<Rightarrow> hook pluginMethods w | None \<Rightarrow> w)"

definition renderNextPage :: "('e, 'z) Inner \<Rightarrow> ('e, 'z) Inner" where
  "renderNextPage s =
     (let nextPage = getHighestPriorityPage (renderQueue s)
      in if nextPage > -1 \<and> isInRange nextPage (renderQueue s)
         then s\<lparr>renderQueue := markRendering nextPage (renderQueue s), renderPageIndex := nextPage\<rparr>
         else s)"

definition handlePageRenderCompleted :: "int \<Rightarrow> ('e, 'z) Inner \<Rightarrow> ('e, 'z) Inner" where
  "handlePageRenderCompleted pageIdx s =
     renderNextPage (s\<lparr>renderQueue := markRendered pageIdx (renderQueue s)\<rparr>)"

text \<open>The loop \<open>for (let i = startRange; i <= endRange; i++)\<close> of the last effect.\<close>

fun recordVisibilities :: "VirtualItem list \<Rightarrow> int list \<Rightarrow> RenderQueue \<Rightarrow> RenderQueue" where
  "recordVisibilities items [] q = q"
| "recordVisibilities items (i # rest) q =
     recordVisibilities items rest
       (case find (\<lambda>item. index item = i) items of
          Some item \<Rightarrow> setVisibility i (visibility item) q
        | None \<Rightarrow> q)"

definition rangeEffect :: "'w Plugin list \<Rightarrow> Virtualizer \<Rightarrow> ('e, 'z) Inner \<Rightarrow> ('e, 'z) Inner" where
  "rangeEffect plugins virtualizer s =
     (let page = maxVisbilityIndex virtualizer;
          s1 = s\<lparr>currentPage := page\<rparr>;
          s2 = setViewerState plugins ((stateRef s1)\<lparr>pageIndex := page\<rparr>) s1;
          q1 = setRange (startRange virtualizer) (endRange virtualizer) (renderQueue s2);
          q2 = recordVisibilities (virtualItems virtualizer)
                 [startRange virtualizer .. endRange virtualizer] q1
      in renderNextPage (s2\<lparr>renderQueue := q2\<rparr>))"

definition executeNamedAction :: "int \<Rightarrow> string \<Rightarrow> ('e, 'z) Inner \<Rightarrow> ('e, 'z) Inner" where
  "executeNamedAction numPages action s =
     (let previousPage = currentPage s - 1;
          nextPage = currentPage s + 1
      in if action = ''FirstPage'' then jumpToPage numPages 0 s
         else if action = ''LastPage'' then jumpToPage numPages (numPages - 1) s
         else if action = ''NextPage''
           then (if nextPage < numPages then jumpToPage numPages nextPage s else s)
         else if action = ''PrevPage''
           then (if previousPage \<ge> 0 then jumpToPage numPages previousPage s else s)
         else s)"


section \<open>Sequences of calls\<close>

text \<open>A sequence of \<open>rotate\<close> calls, one per direction of the list, from left to right.\<close>

definition rotateAll :: "'w Plugin list \<Rightarrow> RotateDirection list \<Rightarrow> ('e, 'z) Inner \<Rightarrow> ('e, 'z) Inner" where
  "rotateAll plugins directions s = foldl (\<lambda>s' direction. rotate plugins direction s') s directions"

text \<open>No \<open>onViewerStateChange\<close> hook of the plugins changes the rotation of the viewer state
  it is given.\<close>

definition keepRotation :: "'w Plugin list \<Rightarrow> bool" where
  "keepRotation plugins =
     (\<forall>plugin \<in> set plugins. \<forall>hook. onViewerStateChange plugin = Some hook
        \<longrightarrow> (\<forall>vs. rotation (hook vs) = rotation vs))"

text \<open>The calls that change the component, and the component after a call. Left out are
  the asynchronous \<open>jumpToDestination\<close>, which reaches the render queue only through the
  \<open>zoom\<close> it may call, and \<open>openFile\<close> and the effects for document load, page change
  and scroll mode, which do not reach it at all.\<close>

datatype 'z Call =
  CallRenderNextPage
  | CallHandlePageRenderCompleted int
  | CallRotate RotateDirection
  | CallRotatePage int RotateDirection
  | CallZoom "'z ZoomLevel"
  | CallHandlePagesResize
  | CallSwitchScrollMode ScrollMode
  | CallJumpToPage int
  | CallExecuteNamedAction string
  | CallSetViewerState ViewerState
  | CallRangeEffect Virtualizer

fun perform ::
  "('e \<Rightarrow> real \<Rightarrow> real \<Rightarrow> 'z \<Rightarrow> real) \<Rightarrow> PageSize \<Rightarrow> int \<Rightarrow> 'w Plugin list \<Rightarrow> 'z Call
     \<Rightarrow> ('e, 'z) Inner \<Rightarrow> ('e, 'z) Inner" where
  "perform calculateScale pageSize numPages plugins CallRenderNextPage s = renderNextPage s"
| "perform calculateScale pageSize numPages plugins (CallHandlePageRenderCompleted p) s =
     handlePageRenderCompleted p s"
| "perform calculateScale pageSize numPages plugins (CallRotate direction) s =
     rotate plugins direction s"
| "perform calculateScale pageSize numPages plugins (CallRotatePage p direction) s =
     rotatePage plugins p direction s"
| "perform calculateScale pageSize numPages plugins (CallZoom newScale) s =
     zoom calculateScale pageSize plugins newScale s"
| "perform calculateScale pageSize numPages plugins CallHandlePagesResize s =
     handlePagesResize calculateScale pageSize plugins s"
| "perform calculateScale pageSize numPages plugins (CallSwitchScrollMode mode) s =
     switchScrollMode plugins mode s"
| "perform calculateScale pageSize numPages plugins (CallJumpToPage p) s = jumpToPage numPages p s"
| "perform calculateScale pageSize numPages plugins (CallExecuteNamedAction action) s =
     executeNamedAction numPages action s"
| "perform calculateScale pageSize numPages plugins (CallSetViewerState vs) s =
     setViewerState plugins vs s"
| "perform calculateScale pageSize numPages plugins (CallRangeEffect virtualizer) s =
     rangeEffect plugins virtualizer s"

text \<open>The calls that reset every page through \<open>markNotRendered\<close>: \<open>rotate\<close>, \<open>zoom\<close>, and
  the resize handler, which calls \<open>zoom\<close>.\<close>

fun globalReset :: "'z Call \<Rightarrow> bool" where
  "globalReset (CallRotate direction) = True"
| "globalReset (CallZoom newScale) = True"
| "globalReset CallHandlePagesResize = True"
| "globalReset call = False"

text \<open>The lifecycle not-rendered, rendering, rendered as a relation between the status of
  a page before and after a call: no change, one step forward, or back to not-rendered
  by a global reset.\<close>

definition lifecycleStep :: "'z Call \<Rightarrow> PageRenderStatus \<Rightarrow> PageRenderStatus \<Rightarrow> bool" where
  "lifecycleStep call before after =
     (after = before
      \<or> (before = NotRenderedYet \<and> after = Rendering)
      \<or> (before = Rendering \<and> after = Rendered)
      \<or> (after = NotRenderedYet \<and> globalReset call))"


section \<open>Sample values\<close>

definition sampleQueue :: RenderQueue where
  "sampleQueue =
     \<lparr>q_startRange = 0, q_endRange = 2,
      visibilities =
        [\<lparr>renderStatus = Rendered, q_visibility = 1 / 4\<rparr>,
         \<lparr>renderStatus = NotRenderedYet, q_visibility = 1\<rparr>,
         \<lparr>renderStatus = NotRenderedYet, q_visibility = 1 / 2\<rparr>,
         \<lparr>renderStatus = NotRenderedYet, q_visibility = 0\<rparr>]\<rparr>"

definition sampleViewerState :: ViewerState where
  "sampleViewerState =
     \<lparr>pageIndex = 0, pagesRotation = Map.empty, rotatedPage = None, rotation = 0, scale = 1,
      scrollMode = Vertical\<rparr>"

definition sampleInner :: "(unit, string) Inner" where
  "sampleInner =
     \<lparr>currentPage = 0, st_rotation = 0, pagesRotationChanged = False,
      st_pagesRotation = Map.empty, currentScrollMode = Vertical, st_scale = 1,
      stateRef = sampleViewerState, keepSpecialZoomLevelRef = None, renderPageIndex = -1,
      renderQueueKey = 0, renderQueue = sampleQueue, pagesRef = Some (), effects = []\<rparr>"

text \<open>A document of eight pages: the queue before anything is recorded, the items the
  virtualizer reports with the last two pages in view and with the first two in view, and
  a queue in which the page of the greatest visibility lies outside the range.\<close>

definition blankPage :: PageVisibility where
  "blankPage = \<lparr>renderStatus = NotRenderedYet, q_visibility = 0\<rparr>"



definition bottomItems :: "VirtualItem list" where
  "bottomItems =
     [\<lparr>index = 3, visibility = 0\<rparr>, \<lparr>index = 4, visibility = 0\<rparr>, \<lparr>index = 5, visibility = 0\<rparr>,
      \<lparr>index = 6, visibility = 1 / 2\<rparr>, \<lparr>index = 7, visibility = 1\<rparr>]"

definition topItems :: "VirtualItem list" where
  "topItems =
     [\<lparr>index = 0, visibility = 3 / 4\<rparr>, \<lparr>index = 1, visibility = 1 / 4\<rparr>,
      \<lparr>index = 2, visibility = 0\<rparr>, \<lparr>index = 3, visibility = 0\<rparr>, \<lparr>index = 4, visibility = 0\<rparr>]"



text \<open>A plugin whose hook overwrites the rotation, and one whose hook leaves it alone.\<close>

definition skewPlugin :: "unit Plugin" where
  "skewPlugin =
     \<lparr>install = None, uninstall = None,
      onViewerStateChange = Some (\<lambda>vs. vs\<lparr>rotation := 45\<rparr>)\<rparr>"

definition pagePlugin :: "unit Plugin" where
  "pagePlugin =
     \<lparr>install = None, uninstall = None,
      onViewerStateChange = Some (\<lambda>vs. vs\<lparr>pageIndex := 7\<rparr>)\<rparr>"

definition fitScale :: "unit \<Rightarrow> real \<Rightarrow> real \<Rightarrow> string \<Rightarrow> real" where
  "fitScale ele h w level = 1"



section \<open>Properties\<close>

subsection \<open>The size estimate\<close>

text \<open>
  C7. \<open>estimateSize\<close> returns the page height and the page width, each multiplied by the
  scale, when the absolute value of the rotation is a multiple of 180, and the same two
  products with height and width swapped otherwise.
\<close>

theorem estimateSize_by_rotation:
  "(\<bar>st_rotation s\<bar> mod 180 = 0 \<longrightarrow>
      estimateSize ps s = \<lparr>height = pageHeight ps * st_scale s, width = pageWidth ps * st_scale s\<rparr>)
   \<and> (\<bar>st_rotation s\<bar> mod 180 \<noteq> 0 \<longrightarrow>
      estimateSize ps s = \<lparr>height = pageWidth ps * st_scale s, width = pageHeight ps * st_scale s\<rparr>)"
  by (simp add: estimateSize_def Let_def)

theorem estimateSize_by_rotation_witness:
  "estimateSize \<lparr>pageHeight = 800, pageWidth = 600\<rparr> (sampleInner\<lparr>st_rotation := -180, st_scale := 2\<rparr>)
     = \<lparr>height = 1600, width = 1200\<rparr>
   \<and> estimateSize \<lparr>pageHeight = 800, pageWidth = 600\<rparr> (sampleInner\<lparr>st_rotation := 90, st_scale := 2\<rparr>)
     = \<lparr>height = 1200, width = 1600\<rparr>"
  using estimateSize_by_rotation [of "sampleInner\<lparr>st_rotation := -180, st_scale := 2\<rparr>" "\<lparr>pageHeight = 800, pageWidth = 600\<rparr>"]
    estimateSize_by_rotation [of "sampleInner\<lparr>st_rotation := 90, st_scale := 2\<rparr>" "\<lparr>pageHeight = 800, pageWidth = 600\<rparr>"]
  by (simp add: sampleInner_def)

subsection \<open>Plugins and the viewer state\<close>

lemma notifyPlugins_foldl:
  "notifyPlugins plugins vs =
     foldl (\<lambda>st plugin. case onViewerStateChange plugin of Some hook \<Rightarrow> hook st | None \<Rightarrow> st) vs plugins"
  by (induction plugins arbitrary: vs) simp_all

lemma notifyPlugins_hooks:
  "notifyPlugins plugins vs = foldl (\<lambda>st hook. hook st) vs (List.map_filter onViewerStateChange plugins)"
  by (induction plugins arbitrary: vs) (simp_all split: option.split)

text \<open>
  C5. \<open>setViewerState\<close> stores the left fold of the plugins' \<open>onViewerStateChange\<close> hooks
  over the given state, in the order of the plugins array; a plugin without the hook leaves
  the state as it is at its position, so the result is the hooks that are present applied in
  order. Nothing but \<open>stateRef\<close> is written.
\<close>

theorem setViewerState_left_fold:
  "stateRef (setViewerState plugins vs s) =
     foldl (\<lambda>st plugin. case onViewerStateChange plugin of Some hook \<Rightarrow> hook st | None \<Rightarrow> st) vs plugins
   \<and> stateRef (setViewerState plugins vs s) =
     foldl (\<lambda>st hook. hook st) vs (List.map_filter onViewerStateChange plugins)
   \<and> setViewerState plugins vs s = s\<lparr>stateRef := stateRef (setViewerState plugins vs s)\<rparr>"
  using notifyPlugins_foldl [of plugins vs] notifyPlugins_hooks [of plugins vs]
  by (simp add: setViewerState_def)

lemma installPlugins_hooks:
  "installPlugins plugins w = foldl (\<lambda>w hook. hook pluginMethods w) w (List.map_filter install plugins)"
  by (induction plugins arbitrary: w) (simp_all split: option.split)

lemma uninstallPlugins_hooks:
  "uninstallPlugins plugins w = foldl (\<lambda>w hook. hook pluginMethods w) w (List.map_filter uninstall plugins)"
  by (induction plugins arbitrary: w) (simp_all split: option.split)

lemma map_filter_length:
  "length (List.map_filter f xs) = length (filter (\<lambda>x. f x \<noteq> None) xs)"
  by (induction xs) (simp_all split: option.split)

text \<open>
  C6. The install effect calls the \<open>install\<close> hook of every plugin that has one, once per
  plugin and in the order of the plugins array, each with the object \<open>pluginMethods\<close>; its
  cleanup does the same with the \<open>uninstall\<close> hooks and the same object. The object has
  exactly the ten keys listed, each bound to the function of that name.
\<close>

theorem plugins_installed_in_order:
  "installPlugins plugins w =
     foldl (\<lambda>w hook. hook pluginMethods w) w (List.map_filter install plugins)
   \<and> uninstallPlugins plugins w' =
     foldl (\<lambda>w hook. hook pluginMethods w) w' (List.map_filter uninstall plugins)
   \<and> length (List.map_filter install plugins) = length (filter (\<lambda>p. install p \<noteq> None) plugins)
   \<and> length (List.map_filter uninstall plugins) = length (filter (\<lambda>p. uninstall p \<noteq> None) plugins)
   \<and> map fst pluginMethods =
       [''getPagesContainer'', ''getViewerState'', ''jumpToDestination'', ''jumpToPage'',
        ''openFile'', ''rotate'', ''rotatePage'', ''setViewerState'', ''switchScrollMode'', ''zoom'']
   \<and> map snd pluginMethods =
       [GetPagesContainer, GetViewerState, JumpToDestination, JumpToPage, OpenFile, Rotate,
        RotatePage, SetViewerState, SwitchScrollMode, Zoom]"
  using installPlugins_hooks [of plugins w] uninstallPlugins_hooks [of plugins w']
    map_filter_length [of install plugins] map_filter_length [of uninstall plugins]
  by (simp add: pluginMethods_def)

subsection \<open>Jumping to a page\<close>

text \<open>
  C10. \<open>jumpToPage\<close> scrolls to the requested page exactly when \<open>0 \<le> pageIndex < numPages\<close>
  and otherwise leaves the component as it is, with no scroll. \<open>executeNamedAction\<close> jumps
  for \<open>NextPage\<close> only when \<open>currentPage + 1 < numPages\<close> and for \<open>PrevPage\<close> only when
  \<open>currentPage - 1 \<ge> 0\<close>, and does nothing for a name it does not recognise.
\<close>

theorem jumpToPage_guard:
  "(jumpToPage numPages p s \<noteq> s) = (0 \<le> p \<and> p < numPages)
   \<and> (0 \<le> p \<and> p < numPages \<longrightarrow>
        jumpToPage numPages p s = s\<lparr>effects := effects s @ [ScrollToItem p 0 0]\<rparr>)
   \<and> (\<not> (0 \<le> p \<and> p < numPages) \<longrightarrow> jumpToPage numPages p s = s)
   \<and> executeNamedAction numPages ''NextPage'' s =
        (if currentPage s + 1 < numPages then jumpToPage numPages (currentPage s + 1) s else s)
   \<and> executeNamedAction numPages ''PrevPage'' s =
        (if currentPage s - 1 \<ge> 0 then jumpToPage numPages (currentPage s - 1) s else s)
   \<and> (executeNamedAction numPages ''NextPage'' s \<noteq> s \<longrightarrow> currentPage s + 1 < numPages)
   \<and> (executeNamedAction numPages ''PrevPage'' s \<noteq> s \<longrightarrow> currentPage s - 1 \<ge> 0)
   \<and> (action \<notin> {''FirstPage'', ''LastPage'', ''NextPage'', ''PrevPage''} \<longrightarrow>
        executeNamedAction numPages action s = s)"
proof -
  have neq: "s\<lparr>effects := effects s @ [x]\<rparr> \<noteq> s" for x
  proof
    assume "s\<lparr>effects := effects s @ [x]\<rparr> = s"
    then have "effects (s\<lparr>effects := effects s @ [x]\<rparr>) = effects s" by simp
    then show False by simp
  qed
  have jump: "(jumpToPage numPages p s \<noteq> s) = (0 \<le> p \<and> p < numPages)"
    using neq by (simp add: jumpToPage_def)
  show ?thesis
    using jump by (simp add: jumpToPage_def executeNamedAction_def Let_def)
qed

theorem jumpToPage_guard_witness:
  "jumpToPage 4 2 sampleInner = sampleInner\<lparr>effects := [ScrollToItem 2 0 0]\<rparr>
   \<and> jumpToPage 4 4 sampleInner = sampleInner
   \<and> jumpToPage 4 (-1) sampleInner = sampleInner
   \<and> executeNamedAction 4 ''NextPage'' sampleInner = sampleInner\<lparr>effects := [ScrollToItem 1 0 0]\<rparr>
   \<and> executeNamedAction 4 ''PrevPage'' (sampleInner\<lparr>currentPage := 3\<rparr>)
       = sampleInner\<lparr>currentPage := 3, effects := [ScrollToItem 2 0 0]\<rparr>
   \<and> executeNamedAction 1 ''NextPage'' sampleInner = sampleInner
   \<and> executeNamedAction 4 ''PrevPage'' sampleInner = sampleInner
   \<and> executeNamedAction 4 ''GoBack'' sampleInner = sampleInner"
  using jumpToPage_guard [of 4 2 sampleInner "''GoBack''"]
    jumpToPage_guard [of 4 4 sampleInner "''GoBack''"]
    jumpToPage_guard [of 4 "-1" sampleInner "''GoBack''"]
    jumpToPage_guard [of 1 0 sampleInner "''GoBack''"]
    jumpToPage_guard [of 4 0 "sampleInner\<lparr>currentPage := 3\<rparr>" "''GoBack''"]
  by (simp add: sampleInner_def jumpToPage_def)

subsection \<open>Zooming to the current scale\<close>

text \<open>
  C9, as stated (\<open>zoom\<close> with a computed scale equal to the current one changes nothing),
  fails: \<open>keepSpecialZoomLevelRef\<close> is assigned before the early return.
\<close>

theorem zoom_same_scale_counterexample:
  "updateScaleOf fitScale \<lparr>pageHeight = 800, pageWidth = 600\<rparr> (Special ''PageFit'') sampleInner
     = scale (stateRef sampleInner)
   \<and> zoom fitScale \<lparr>pageHeight = 800, pageWidth = 600\<rparr> [pagePlugin] (Special ''PageFit'') sampleInner
     \<noteq> sampleInner
   \<and> keepSpecialZoomLevelRef sampleInner = None
   \<and> keepSpecialZoomLevelRef
       (zoom fitScale \<lparr>pageHeight = 800, pageWidth = 600\<rparr> [pagePlugin] (Special ''PageFit'') sampleInner)
     = Some ''PageFit''"
proof -
  let ?z = "zoom fitScale \<lparr>pageHeight = 800, pageWidth = 600\<rparr> [pagePlugin] (Special ''PageFit'') sampleInner"
  have k: "keepSpecialZoomLevelRef ?z = Some ''PageFit''"
    by (simp add: zoom_def updateScaleOf_def fitScale_def sampleInner_def sampleViewerState_def Let_def)
  have k0: "keepSpecialZoomLevelRef sampleInner = None"
    by (simp add: sampleInner_def)
  have "?z \<noteq> sampleInner"
  proof
    assume "?z = sampleInner"
    then have "keepSpecialZoomLevelRef ?z = keepSpecialZoomLevelRef sampleInner" by simp
    with k k0 show False by simp
  qed
  moreover have "updateScaleOf fitScale \<lparr>pageHeight = 800, pageWidth = 600\<rparr> (Special ''PageFit'') sampleInner
     = scale (stateRef sampleInner)"
    by (simp add: updateScaleOf_def fitScale_def sampleInner_def sampleViewerState_def)
  ultimately show ?thesis using k k0 by simp
qed

text \<open>
  C9, amended. When the computed scale equals the scale of the viewer state, \<open>zoom\<close>
  returns early having written \<open>keepSpecialZoomLevelRef\<close> only (the special level of a
  string argument, null for a number): the scale, the viewer state, the render queue and
  the render-queue key are unchanged, and neither \<open>virtualizer.zoom\<close> nor \<open>onZoom\<close> is
  called.
\<close>

theorem zoom_same_scale:
  assumes "updateScaleOf calculateScale pageSize newScale s = scale (stateRef s)"
  shows "zoom calculateScale pageSize plugins newScale s =
           s\<lparr>keepSpecialZoomLevelRef :=
               (case newScale of Special level \<Rightarrow> Some level | Num n \<Rightarrow> None)\<rparr>
         \<and> st_scale (zoom calculateScale pageSize plugins newScale s) = st_scale s
         \<and> stateRef (zoom calculateScale pageSize plugins newScale s) = stateRef s
         \<and> renderQueue (zoom calculateScale pageSize plugins newScale s) = renderQueue s
         \<and> renderQueueKey (zoom calculateScale pageSize plugins newScale s) = renderQueueKey s
         \<and> effects (zoom calculateScale pageSize plugins newScale s) = effects s"
  using assms by (simp add: zoom_def Let_def)

theorem zoom_same_scale_witness:
  "zoom fitScale \<lparr>pageHeight = 800, pageWidth = 600\<rparr> [pagePlugin] (Special ''PageFit'') sampleInner
     = sampleInner\<lparr>keepSpecialZoomLevelRef := Some ''PageFit''\<rparr>
   \<and> effects (zoom fitScale \<lparr>pageHeight = 800, pageWidth = 600\<rparr> [pagePlugin] (Special ''PageFit'') sampleInner) = []
   \<and> zoom fitScale \<lparr>pageHeight = 800, pageWidth = 600\<rparr> [pagePlugin] (Num 1) sampleInner = sampleInner"
proof -
  have a: "updateScaleOf fitScale \<lparr>pageHeight = 800, pageWidth = 600\<rparr> (Special ''PageFit'') sampleInner
     = scale (stateRef sampleInner)"
    by (simp add: updateScaleOf_def fitScale_def sampleInner_def sampleViewerState_def)
  have b: "updateScaleOf fitScale \<lparr>pageHeight = 800, pageWidth = 600\<rparr> (Num 1) sampleInner
     = scale (stateRef sampleInner)"
    by (simp add: updateScaleOf_def fitScale_def sampleInner_def sampleViewerState_def)
  show ?thesis
    using zoom_same_scale [OF a, of "[pagePlugin]"] zoom_same_scale [OF b, of "[pagePlugin]"]
    by (simp add: sampleInner_def)
qed

subsection \<open>Rotation\<close>

lemma notifyPlugins_keepRotation:
  "keepRotation plugins \<Longrightarrow> rotation (notifyPlugins plugins vs) = rotation vs"
proof (induction plugins arbitrary: vs)
  case Nil
  then show ?case by simp
next
  case (Cons plugin rest)
  from Cons.prems have rest: "keepRotation rest"
    by (simp add: keepRotation_def)
  show ?case
  proof (cases "onViewerStateChange plugin")
    case None
    then show ?thesis using Cons.IH [OF rest] by simp
  next
    case (Some hook)
    with Cons.prems have "rotation (hook vs) = rotation vs"
      by (simp add: keepRotation_def)
    then show ?thesis using Some Cons.IH [OF rest, of "hook vs"] by simp
  qed
qed

lemma rotate_st_rotation:
  "st_rotation (rotate plugins direction s) =
     (if rotation (stateRef s) = 360 \<or> rotation (stateRef s) = -360 then degreesOf direction
      else rotation (stateRef s) + degreesOf direction)"
  by (simp add: rotate_def Let_def setViewerState_def)

lemma rotate_effects:
  "effects (rotate plugins direction s) =
     effects s @ [OnRotate direction (st_rotation (rotate plugins direction s))]"
  by (simp add: rotate_def Let_def setViewerState_def)

lemma rotate_stateRef:
  "stateRef (rotate plugins direction s) =
     notifyPlugins plugins ((stateRef s)\<lparr>rotation := st_rotation (rotate plugins direction s)\<rparr>)"
  by (simp add: rotate_def Let_def setViewerState_def)

lemma rotate_stored:
  "keepRotation plugins \<Longrightarrow>
     rotation (stateRef (rotate plugins direction s)) = st_rotation (rotate plugins direction s)"
  by (simp add: rotate_stateRef notifyPlugins_keepRotation)

lemma quarter_turn_step:
  fixes r :: int
  assumes "90 dvd r" "-360 \<le> r" "r \<le> 360"
  shows "90 dvd (if r = 360 \<or> r = -360 then degreesOf direction else r + degreesOf direction)
    \<and> -360 \<le> (if r = 360 \<or> r = -360 then degreesOf direction else r + degreesOf direction)
    \<and> (if r = 360 \<or> r = -360 then degreesOf direction else r + degreesOf direction) \<le> 360"
proof -
  have d: "degreesOf direction = 90 \<or> degreesOf direction = -90"
    by (simp add: degreesOf_def)
  have "r \<noteq> 360 \<Longrightarrow> r \<le> 270" and "r \<noteq> -360 \<Longrightarrow> -270 \<le> r"
    using assms by presburger+
  moreover have "90 dvd r + 90" and "90 dvd r - 90"
    using assms(1) by presburger+
  ultimately show ?thesis
    using d by auto
qed

lemma rotateAll_snoc:
  "rotateAll plugins (directions @ [direction]) s = rotate plugins direction (rotateAll plugins directions s)"
  by (simp add: rotateAll_def)

lemma rotateAll_invariant:
  assumes "keepRotation plugins" "st_rotation s = 0" "rotation (stateRef s) = 0"
  shows "rotation (stateRef (rotateAll plugins directions s)) = st_rotation (rotateAll plugins directions s)
    \<and> 90 dvd st_rotation (rotateAll plugins directions s)
    \<and> -360 \<le> st_rotation (rotateAll plugins directions s)
    \<and> st_rotation (rotateAll plugins directions s) \<le> 360"
proof (induction directions rule: rev_induct)
  case Nil
  then show ?case using assms by (simp add: rotateAll_def)
next
  case (snoc direction directions)
  let ?s = "rotateAll plugins directions s"
  from snoc have r: "rotation (stateRef ?s) = st_rotation ?s" "90 dvd rotation (stateRef ?s)"
    "-360 \<le> rotation (stateRef ?s)" "rotation (stateRef ?s) \<le> 360"
    by simp_all
  show ?case
    unfolding rotateAll_snoc
    using quarter_turn_step [OF r(2) r(3) r(4), of direction] rotate_stored [OF assms(1), of direction ?s]
    by (simp add: rotate_st_rotation)
qed

text \<open>
  C8, as stated, fails when a plugin's \<open>onViewerStateChange\<close> hook rewrites the rotation:
  \<open>rotate\<close> reads the current rotation from the stored viewer state, which is what the
  hooks returned. The first call reports 90 and stores 45; the second sets the rotation
  to 135.
\<close>

theorem rotate_quarter_turns_counterexample:
  "st_rotation sampleInner = 0 \<and> rotation (stateRef sampleInner) = 0
   \<and> st_rotation (rotate [skewPlugin] Forward sampleInner) = 90
   \<and> rotation (stateRef (rotate [skewPlugin] Forward sampleInner)) = 45
   \<and> st_rotation (rotateAll [skewPlugin] [Forward, Forward] sampleInner) = 135
   \<and> \<not> 90 dvd st_rotation (rotateAll [skewPlugin] [Forward, Forward] sampleInner)"
  by (simp add: rotateAll_def rotate_def Let_def setViewerState_def skewPlugin_def degreesOf_def
      sampleInner_def sampleViewerState_def)

text \<open>
  C8, amended. When no plugin's \<open>onViewerStateChange\<close> hook changes the rotation, and the
  rotation is 0 at the start in both the component state and the viewer state, then after
  any sequence of \<open>rotate\<close> calls the rotation is a multiple of 90 in \<open>[-360, 360]\<close>;
  a further call adds 90 (forward) or -90 (backward), except that from 360 or -360 the new
  rotation is the step itself; \<open>onRotate\<close> receives the new rotation and the viewer state
  stores it.
\<close>

theorem rotate_quarter_turns:
  assumes "keepRotation plugins" "st_rotation s = 0" "rotation (stateRef s) = 0"
  shows "90 dvd st_rotation (rotateAll plugins directions s)
    \<and> -360 \<le> st_rotation (rotateAll plugins directions s)
    \<and> st_rotation (rotateAll plugins directions s) \<le> 360
    \<and> rotation (stateRef (rotateAll plugins directions s)) = st_rotation (rotateAll plugins directions s)
    \<and> st_rotation (rotate plugins direction (rotateAll plugins directions s)) =
        (if st_rotation (rotateAll plugins directions s) = 360
            \<or> st_rotation (rotateAll plugins directions s) = -360
         then degreesOf direction
         else st_rotation (rotateAll plugins directions s) + degreesOf direction)
    \<and> degreesOf Forward = 90 \<and> degreesOf Backward = -90
    \<and> effects (rotate plugins direction (rotateAll plugins directions s)) =
        effects (rotateAll plugins directions s)
          @ [OnRotate direction (st_rotation (rotate plugins direction (rotateAll plugins directions s)))]
    \<and> rotation (stateRef (rotate plugins direction (rotateAll plugins directions s))) =
        st_rotation (rotate plugins direction (rotateAll plugins directions s))"
proof -
  let ?s = "rotateAll plugins directions s"
  have inv: "rotation (stateRef ?s) = st_rotation ?s" "90 dvd st_rotation ?s"
    "-360 \<le> st_rotation ?s" "st_rotation ?s \<le> 360"
    using rotateAll_invariant [OF assms, of directions] by simp_all
  have step: "st_rotation (rotate plugins direction ?s) =
        (if st_rotation ?s = 360 \<or> st_rotation ?s = -360 then degreesOf direction
         else st_rotation ?s + degreesOf direction)"
    using rotate_st_rotation [of plugins direction ?s] inv(1) by simp
  have deg: "degreesOf Forward = 90" "degreesOf Backward = -90"
    by (simp_all add: degreesOf_def)
  show ?thesis
    using inv step deg rotate_effects [of plugins direction ?s] rotate_stored [OF assms(1), of direction ?s]
    by simp
qed

lemma keepRotation_pagePlugin: "keepRotation [pagePlugin]"
  by (simp add: keepRotation_def pagePlugin_def)

theorem rotate_quarter_turns_witness:
  "st_rotation (rotateAll [pagePlugin] [Forward, Forward, Forward, Forward] sampleInner) = 360
   \<and> st_rotation (rotate [pagePlugin] Forward
        (rotateAll [pagePlugin] [Forward, Forward, Forward, Forward] sampleInner)) = 90
   \<and> rotation (stateRef (rotate [pagePlugin] Forward
        (rotateAll [pagePlugin] [Forward, Forward, Forward, Forward] sampleInner))) = 90
   \<and> effects (rotate [pagePlugin] Forward
        (rotateAll [pagePlugin] [Forward, Forward, Forward, Forward] sampleInner)) =
       [OnRotate Forward 90, OnRotate Forward 180, OnRotate Forward 270, OnRotate Forward 360,
        OnRotate Forward 90]"
proof -
  have a: "st_rotation sampleInner = 0" "rotation (stateRef sampleInner) = 0"
    by (simp_all add: sampleInner_def sampleViewerState_def)
  have v: "st_rotation (rotateAll [pagePlugin] [Forward, Forward, Forward, Forward] sampleInner) = 360"
    by (simp add: rotateAll_def rotate_def Let_def setViewerState_def pagePlugin_def degreesOf_def
      sampleInner_def sampleViewerState_def)
  have e: "effects (rotateAll [pagePlugin] [Forward, Forward, Forward, Forward] sampleInner) =
      [OnRotate Forward 90, OnRotate Forward 180, OnRotate Forward 270, OnRotate Forward 360]"
    by (simp add: rotateAll_def rotate_def Let_def setViewerState_def pagePlugin_def degreesOf_def
      sampleInner_def sampleViewerState_def)
  show ?thesis
    using rotate_quarter_turns [OF keepRotation_pagePlugin a, of "[Forward, Forward, Forward, Forward]" Forward]
    by (simp add: v e)
qed

subsection \<open>Choosing and scheduling the next page\<close>

lemma updatePage_frame:
  "length (visibilities (updatePage p f q)) = length (visibilities q)"
  "q_startRange (updatePage p f q) = q_startRange q"
  "q_endRange (updatePage p f q) = q_endRange q"
  by (simp_all add: updatePage_def)

lemma isInRange_updatePage: "isInRange i (updatePage p f q) = isInRange i q"
  by (simp add: isInRange_def updatePage_frame)

lemma statusOf_updatePage:
  "statusOf (updatePage p f q) i =
     (if i = p \<and> 0 \<le> p \<and> p < int (length (visibilities q))
      then Some (renderStatus (f (visibilities q ! nat p)))
      else statusOf q i)"
  by (auto simp: statusOf_def updatePage_def nth_list_update)

lemma visibilityOf_updatePage:
  "0 \<le> i \<Longrightarrow>
   visibilityOf (updatePage p f q) i =
     (if i = p \<and> p < int (length (visibilities q))
      then q_visibility (f (visibilities q ! nat p))
      else visibilityOf q i)"
  by (auto simp: visibilityOf_def updatePage_def nth_list_update)

lemma statusOf_markRendering:
  "statusOf (markRendering p q) i =
     (if i = p \<and> 0 \<le> p \<and> p < int (length (visibilities q)) then Some Rendering else statusOf q i)"
  by (simp add: markRendering_def statusOf_updatePage)

lemma statusOf_markRendered:
  "statusOf (markRendered p q) i =
     (if i = p \<and> 0 \<le> p \<and> p < int (length (visibilities q)) then Some Rendered else statusOf q i)"
  by (simp add: markRendered_def statusOf_updatePage)

lemma statusOf_markNotRendered:
  "statusOf (markNotRendered q) i =
     (if 0 \<le> i \<and> i < int (length (visibilities q)) then Some NotRenderedYet else None)"
  by (auto simp: statusOf_def markNotRendered_def nat_less_iff)

lemma statusOf_setVisibility: "statusOf (setVisibility p x q) i = statusOf q i"
  by (auto simp: setVisibility_def updatePage_def statusOf_def nth_list_update)

lemma statusOf_setRange: "statusOf (setRange a b q) i = statusOf q i"
  by (simp add: setRange_def statusOf_def)

lemma mark_frame:
  "length (visibilities (markRendering p q)) = length (visibilities q)"
  "length (visibilities (markRendered p q)) = length (visibilities q)"
  "isInRange i (markRendering p q) = isInRange i q"
  "isInRange i (markRendered p q) = isInRange i q"
  by (simp_all add: markRendering_def markRendered_def updatePage_frame isInRange_updatePage)

lemma mark_visibility:
  "0 \<le> i \<Longrightarrow> visibilityOf (markRendering p q) i = visibilityOf q i"
  "0 \<le> i \<Longrightarrow> visibilityOf (markRendered p q) i = visibilityOf q i"
  by (simp_all add: markRendering_def markRendered_def visibilityOf_updatePage)
    (simp_all add: visibilityOf_def)



lemma waitingPage_markRendered:
  "waitingPage (markRendered p q) i = (waitingPage q i \<and> i \<noteq> p)"
  using mark_visibility(2) [of i p q]
  by (auto simp: waitingPage_def mark_frame statusOf_markRendered)

lemma candidates_iff:
  "((i, x) \<in> set (candidates q)) = (waitingPage q i \<and> x = visibilityOf q i)"
proof
  assume "(i, x) \<in> set (candidates q)"
  then obtain n v where nv: "(n, v) \<in> set (enumerate 0 (visibilities q))" "waiting v"
    "i = int n" "x = q_visibility v"
    by (auto simp: candidates_def)
  from nv(1) have "n < length (visibilities q)" "v = visibilities q ! n"
    by (simp_all add: in_set_enumerate_eq)
  with nv show "waitingPage q i \<and> x = visibilityOf q i"
    by (simp add: waiting_def waitingPage_def visibilityOf_def statusOf_def)
next
  assume a: "waitingPage q i \<and> x = visibilityOf q i"
  then have b: "0 \<le> i" "nat i < length (visibilities q)"
    by (simp_all add: waitingPage_def nat_less_iff)
  then have "(nat i, visibilities q ! nat i) \<in> set (enumerate 0 (visibilities q))"
    by (simp add: in_set_enumerate_eq)
  moreover from a b have "waiting (visibilities q ! nat i)"
    by (auto simp: waiting_def waitingPage_def visibilityOf_def statusOf_def split: if_splits)
  ultimately have "(\<lambda>(n, v). (int n, q_visibility v)) (nat i, visibilities q ! nat i) \<in> set (candidates q)"
    unfolding candidates_def by (simp only: set_map set_filter) blast
  with a b show "(i, x) \<in> set (candidates q)"
    by (simp add: visibilityOf_def)
qed

lemma pickHighest_mem: "pickHighest best cs \<in> set (best # cs)"
  by (induction cs arbitrary: best) (auto split: if_splits)

lemma pickHighest_max: "c \<in> set (best # cs) \<Longrightarrow> snd c \<le> snd (pickHighest best cs)"
proof (induction cs arbitrary: best c)
  case Nil
  then show ?case by simp
next
  case (Cons d ds)
  let ?b = "if snd best < snd d then d else best"
  have b: "snd best \<le> snd (pickHighest ?b ds)" "snd d \<le> snd (pickHighest ?b ds)"
    using Cons.IH [of ?b ?b] by (auto split: if_splits)
  from Cons.prems consider "c = best" | "c = d" | "c \<in> set ds" by auto
  then show ?case
  proof cases
    case 3
    then show ?thesis using Cons.IH [of c ?b] by simp
  qed (use b in simp_all)
qed


lemma highest_some:
  assumes "getHighestPriorityPage q \<noteq> -1"
  shows "waitingPage q (getHighestPriorityPage q)"
    and "waitingPage q j \<Longrightarrow> visibilityOf q j \<le> visibilityOf q (getHighestPriorityPage q)"
proof -
  from assms obtain c cs where Cons: "candidates q = c # cs"
    by (cases "candidates q") (simp_all add: getHighestPriorityPage_def)
  let ?r = "pickHighest c cs"
  have g: "getHighestPriorityPage q = fst ?r" using Cons by (simp add: getHighestPriorityPage_def)
  have "?r \<in> set (candidates q)" using pickHighest_mem [of c cs] Cons by simp
  then have "(fst ?r, snd ?r) \<in> set (candidates q)" by simp
  then have w: "waitingPage q (fst ?r)" "snd ?r = visibilityOf q (fst ?r)"
    by (simp_all only: candidates_iff)
  show "waitingPage q (getHighestPriorityPage q)" using w g by simp
  show "visibilityOf q j \<le> visibilityOf q (getHighestPriorityPage q)" if "waitingPage q j"
  proof -
    from that have "(j, visibilityOf q j) \<in> set (c # cs)"
      using Cons candidates_iff [of j "visibilityOf q j" q] by simp
    from pickHighest_max [OF this] show ?thesis using w g by simp
  qed
qed

lemma waitingPage_bounds:
  "waitingPage q i \<Longrightarrow> 0 \<le> i \<and> i < int (length (visibilities q))"
  by (simp add: waitingPage_def)

lemma renderNextPage_idle:
  "\<not> (getHighestPriorityPage (renderQueue s) > -1
       \<and> isInRange (getHighestPriorityPage (renderQueue s)) (renderQueue s))
   \<Longrightarrow> renderNextPage s = s"
  by (auto simp: renderNextPage_def Let_def)

lemma renderNextPage_schedules:
  "getHighestPriorityPage (renderQueue s) > -1
   \<Longrightarrow> isInRange (getHighestPriorityPage (renderQueue s)) (renderQueue s)
   \<Longrightarrow> renderNextPage s =
         s\<lparr>renderQueue := markRendering (getHighestPriorityPage (renderQueue s)) (renderQueue s),
           renderPageIndex := getHighestPriorityPage (renderQueue s)\<rparr>"
  by (simp add: renderNextPage_def Let_def)

lemma setVisibility_frame:
  "q_startRange (setVisibility p x q) = q_startRange q"
  "q_endRange (setVisibility p x q) = q_endRange q"
  "length (visibilities (setVisibility p x q)) = length (visibilities q)"
  by (simp_all add: setVisibility_def updatePage_frame)


lemma recordVisibilities_frame:
  "statusOf (recordVisibilities items is q) i = statusOf q i
   \<and> q_startRange (recordVisibilities items is q) = q_startRange q
   \<and> q_endRange (recordVisibilities items is q) = q_endRange q
   \<and> length (visibilities (recordVisibilities items is q)) = length (visibilities q)"
  by (induction "is" arbitrary: q)
    (simp_all add: statusOf_setVisibility setVisibility_frame split: option.split)


lemma rangeEffect_unfold:
  "rangeEffect plugins v s =
     renderNextPage
       (s\<lparr>currentPage := maxVisbilityIndex v,
          stateRef := notifyPlugins plugins ((stateRef s)\<lparr>pageIndex := maxVisbilityIndex v\<rparr>),
          renderQueue := recordVisibilities (virtualItems v) [startRange v .. endRange v]
                           (setRange (startRange v) (endRange v) (renderQueue s))\<rparr>)"
  by (simp add: rangeEffect_def Let_def setViewerState_def)



lemma renderNextPage_queue:
  "renderQueue (renderNextPage s) =
     (if getHighestPriorityPage (renderQueue s) > -1
         \<and> isInRange (getHighestPriorityPage (renderQueue s)) (renderQueue s)
      then markRendering (getHighestPriorityPage (renderQueue s)) (renderQueue s)
      else renderQueue s)"
  by (simp add: renderNextPage_def Let_def)


lemmas queue_eval =
  getHighestPriorityPage_def candidates_def waiting_def isInRange_def markRendering_def
  markRendered_def markNotRendered_def updatePage_def setRange_def setVisibility_def
  useVirtual_def setStartRange_def setEndRange_def NUM_OVERSCAN_PAGES_def upto.simps
  blankPage_def bottomItems_def topItems_def

lemma sample_highest: "getHighestPriorityPage (renderQueue sampleInner) = 1"
  by (simp add: queue_eval sampleInner_def sampleQueue_def)






subsection \<open>The range of pages to render\<close>


lemma renderNextPage_range:
  "q_startRange (renderQueue (renderNextPage s)) = q_startRange (renderQueue s)"
  "q_endRange (renderQueue (renderNextPage s)) = q_endRange (renderQueue s)"
  "isInRange i (renderQueue (renderNextPage s)) = isInRange i (renderQueue s)"
  by (simp_all add: renderNextPage_queue mark_frame isInRange_def [of i] markRendering_def updatePage_frame)

lemma renderNextPage_status:
  "statusOf (renderQueue (renderNextPage s)) i = statusOf (renderQueue s) i
   \<or> (statusOf (renderQueue (renderNextPage s)) i = Some Rendering
      \<and> waitingPage (renderQueue s) i \<and> isInRange i (renderQueue s)
      \<and> i = getHighestPriorityPage (renderQueue s))"
proof (cases "statusOf (renderQueue (renderNextPage s)) i = statusOf (renderQueue s) i")
  case True
  then show ?thesis by simp
next
  case False
  then have neq: "renderNextPage s \<noteq> s" by auto
  let ?n = "getHighestPriorityPage (renderQueue s)"
  from neq have g: "?n > -1" "isInRange ?n (renderQueue s)"
    using renderNextPage_idle [of s] by blast+
  from g have w: "waitingPage (renderQueue s) ?n"
    using highest_some(1) [of "renderQueue s"] by simp
  from False have i: "i = ?n" and r: "statusOf (renderQueue (renderNextPage s)) i = Some Rendering"
    by (simp_all add: renderNextPage_schedules [OF g] statusOf_markRendering split: if_splits)
  from w i r g show ?thesis by blast
qed

lemma completed_status:
  "(i = p \<and> ((statusOf (renderQueue s) i = None
                \<and> statusOf (renderQueue (handlePageRenderCompleted p s)) i = None)
            \<or> statusOf (renderQueue (handlePageRenderCompleted p s)) i = Some Rendered))
   \<or> (i \<noteq> p
      \<and> (statusOf (renderQueue (handlePageRenderCompleted p s)) i = statusOf (renderQueue s) i
         \<or> (statusOf (renderQueue (handlePageRenderCompleted p s)) i = Some Rendering
            \<and> waitingPage (renderQueue s) i \<and> isInRange i (renderQueue s)
            \<and> i = getHighestPriorityPage (markRendered p (renderQueue s)))))"
proof -
  let ?q = "renderQueue s"
  let ?m = "markRendered p ?q"
  let ?t = "s\<lparr>renderQueue := ?m\<rparr>"
  let ?a = "statusOf (renderQueue (handlePageRenderCompleted p s)) i"
  have h: "handlePageRenderCompleted p s = renderNextPage ?t"
    by (simp add: handlePageRenderCompleted_def)
  have base: "?a = statusOf ?m i
      \<or> (?a = Some Rendering \<and> waitingPage ?m i \<and> isInRange i ?m \<and> i = getHighestPriorityPage ?m)"
    using renderNextPage_status [of ?t i] unfolding h by simp
  have t: "statusOf ?m i = (if i = p \<and> statusOf ?q i \<noteq> None then Some Rendered else statusOf ?q i)"
    by (simp add: statusOf_markRendered) (auto simp: statusOf_def)
  have w: "waitingPage ?m i = (waitingPage ?q i \<and> i \<noteq> p)"
    by (rule waitingPage_markRendered)
  have r: "isInRange i ?m = isInRange i ?q"
    by (simp add: mark_frame)
  show ?thesis
  proof (cases "i = p")
    case True
    with base w have "?a = statusOf ?m i" by blast
    with True t show ?thesis by (cases "statusOf ?q i = None") simp_all
  next
    case False
    with base t w r show ?thesis by auto
  qed
qed

lemma rotate_queue: "renderQueue (rotate plugins direction s) = markNotRendered (renderQueue s)"
  by (simp add: rotate_def Let_def setViewerState_def)

lemma zoom_queue:
  "renderQueue (zoom calculateScale pageSize plugins newScale s) =
     (if updateScaleOf calculateScale pageSize newScale s = scale (stateRef s)
      then renderQueue s else markNotRendered (renderQueue s))"
  by (simp add: zoom_def Let_def setViewerState_def)

lemma handlePagesResize_queue:
  "renderQueue (handlePagesResize calculateScale pageSize plugins s) = renderQueue s
   \<or> renderQueue (handlePagesResize calculateScale pageSize plugins s) = markNotRendered (renderQueue s)"
proof (cases "keepSpecialZoomLevelRef s")
  case None
  then show ?thesis by (simp add: handlePagesResize_def)
next
  case (Some level)
  then show ?thesis
    using zoom_queue [of calculateScale pageSize plugins "Special level" "s\<lparr>renderPageIndex := -1\<rparr>"]
    by (simp add: handlePagesResize_def split: if_splits)
qed

lemma rotatePage_queue:
  "renderQueue (rotatePage plugins p direction s) = markRendering p (renderQueue s)"
  "renderPageIndex (rotatePage plugins p direction s) = p"
  by (simp_all add: rotatePage_def Let_def setViewerState_def)

lemma other_queue:
  "renderQueue (switchScrollMode plugins mode s) = renderQueue s"
  "renderQueue (jumpToPage numPages p s) = renderQueue s"
  "renderQueue (executeNamedAction numPages action s) = renderQueue s"
  "renderQueue (setViewerState plugins vs s) = renderQueue s"
  by (simp_all add: switchScrollMode_def jumpToPage_def executeNamedAction_def setViewerState_def Let_def)


lemma rangeEffect_status:
  "statusOf (renderQueue (rangeEffect plugins v s)) i = statusOf (renderQueue s) i
   \<or> (statusOf (renderQueue (rangeEffect plugins v s)) i = Some Rendering
      \<and> statusOf (renderQueue s) i = Some NotRenderedYet
      \<and> isInRange i (renderQueue (rangeEffect plugins v s)))"
proof -
  let ?t = "s\<lparr>currentPage := maxVisbilityIndex v,
          stateRef := notifyPlugins plugins ((stateRef s)\<lparr>pageIndex := maxVisbilityIndex v\<rparr>),
          renderQueue := recordVisibilities (virtualItems v) [startRange v .. endRange v]
                           (setRange (startRange v) (endRange v) (renderQueue s))\<rparr>"
  have st: "statusOf (renderQueue ?t) i = statusOf (renderQueue s) i"
    by (simp add: recordVisibilities_frame statusOf_setRange)
  have w: "waitingPage (renderQueue ?t) i \<Longrightarrow> statusOf (renderQueue s) i = Some NotRenderedYet"
    using st by (simp add: waitingPage_def)
  have r: "isInRange i (renderQueue (renderNextPage ?t)) = isInRange i (renderQueue ?t)"
    by (rule renderNextPage_range)
  show ?thesis
    using renderNextPage_status [of ?t i] w r unfolding rangeEffect_unfold st by blast
qed

lemma reset_status:
  "statusOf q i = Some before \<Longrightarrow> statusOf (markNotRendered q) i = Some NotRenderedYet"
proof -
  assume "statusOf q i = Some before"
  then have "0 \<le> i \<and> i < int (length (visibilities q))"
    by (simp add: statusOf_def split: if_splits)
  then show ?thesis by (simp add: statusOf_markNotRendered)
qed






subsection \<open>The render lifecycle\<close>

lemma statusOf_bounds:
  "statusOf q i = Some st \<Longrightarrow> 0 \<le> i \<and> i < int (length (visibilities q))"
  by (simp add: statusOf_def split: if_splits)

lemma renderNextPage_status_eq:
  "statusOf (renderQueue (renderNextPage s)) i =
     (if i = getHighestPriorityPage (renderQueue s) \<and> -1 < i \<and> isInRange i (renderQueue s)
      then Some Rendering else statusOf (renderQueue s) i)"
proof (cases "getHighestPriorityPage (renderQueue s) > -1
    \<and> isInRange (getHighestPriorityPage (renderQueue s)) (renderQueue s)")
  case True
  let ?n = "getHighestPriorityPage (renderQueue s)"
  from True have "?n \<noteq> -1" by simp
  from highest_some(1) [OF this] have "0 \<le> ?n \<and> ?n < int (length (visibilities (renderQueue s)))"
    by (rule waitingPage_bounds)
  then show ?thesis
    using True renderNextPage_schedules [of s] by (simp add: statusOf_markRendering)
next
  case False
  then have "renderNextPage s = s" by (rule renderNextPage_idle)
  with False show ?thesis by auto
qed

lemma chosen_not_rendered:
  assumes "i = getHighestPriorityPage q" and "statusOf q i = Some before"
  shows "before = NotRenderedYet"
proof -
  from assms(2) have "0 \<le> i" by (simp add: statusOf_def split: if_splits)
  with assms(1) have "getHighestPriorityPage q \<noteq> -1" by simp
  from highest_some(1) [OF this] assms show ?thesis by (simp add: waitingPage_def)
qed

lemma next_status:
  assumes "statusOf (renderQueue s) i = Some before"
    and "statusOf (renderQueue (renderNextPage s)) i = Some after"
  shows "after = (if i = getHighestPriorityPage (renderQueue s) \<and> isInRange i (renderQueue s)
                  then Rendering else before)"
    and "i = getHighestPriorityPage (renderQueue s) \<Longrightarrow> before = NotRenderedYet"
proof -
  from assms(1) have i: "-1 < i" by (simp add: statusOf_def split: if_splits)
  have "(if i = getHighestPriorityPage (renderQueue s) \<and> -1 < i \<and> isInRange i (renderQueue s)
         then Some Rendering else statusOf (renderQueue s) i) = Some after"
    using assms(2) unfolding renderNextPage_status_eq .
  then show "after = (if i = getHighestPriorityPage (renderQueue s) \<and> isInRange i (renderQueue s)
                  then Rendering else before)"
    using assms(1) i
    by (cases "i = getHighestPriorityPage (renderQueue s) \<and> isInRange i (renderQueue s)") auto
  show "before = NotRenderedYet" if "i = getHighestPriorityPage (renderQueue s)"
    using chosen_not_rendered [OF that assms(1)] .
qed

lemma completed_next_status:
  assumes "statusOf (renderQueue s) i = Some before"
    and "statusOf (renderQueue (handlePageRenderCompleted p s)) i = Some after"
  shows "after =
      (if i = p then Rendered
       else if i = getHighestPriorityPage (markRendered p (renderQueue s)) \<and> isInRange i (renderQueue s)
         then Rendering else before)"
    and "i \<noteq> p \<Longrightarrow> i = getHighestPriorityPage (markRendered p (renderQueue s))
         \<Longrightarrow> before = NotRenderedYet"
proof -
  let ?m = "markRendered p (renderQueue s)"
  let ?t = "s\<lparr>renderQueue := ?m\<rparr>"
  from assms(1) have b: "0 \<le> i \<and> i < int (length (visibilities (renderQueue s)))"
    by (rule statusOf_bounds)
  have m: "statusOf (renderQueue ?t) i = Some (if i = p then Rendered else before)"
    using assms(1) b by (simp add: statusOf_markRendered)
  have a: "statusOf (renderQueue (renderNextPage ?t)) i = Some after"
    using assms(2) by (simp add: handlePageRenderCompleted_def)
  have r: "isInRange i (renderQueue ?t) = isInRange i (renderQueue s)"
    by (simp add: mark_frame)
  have chosen: "(if i = p then Rendered else before) = NotRenderedYet"
    if "i = getHighestPriorityPage ?m"
    using next_status(2) [OF m a] that by simp
  from next_status(1) [OF m a] chosen
  show "after =
      (if i = p then Rendered
       else if i = getHighestPriorityPage ?m \<and> isInRange i (renderQueue s)
         then Rendering else before)"
    unfolding r by (auto split: if_splits)
  show "before = NotRenderedYet" if "i \<noteq> p" "i = getHighestPriorityPage ?m"
    using chosen [OF that(2)] that(1) by simp
qed

lemma rotatePage_status:
  assumes "statusOf (renderQueue s) i = Some before"
    and "statusOf (renderQueue (rotatePage plugins p direction s)) i = Some after"
  shows "after = (if i = p then Rendering else before)"
  using assms statusOf_bounds [OF assms(1)]
  by (cases "i = p") (simp_all add: rotatePage_queue statusOf_markRendering)

lemma zoom_status:
  assumes "statusOf (renderQueue s) i = Some before"
    and "statusOf (renderQueue (zoom calculateScale pageSize plugins newScale s)) i = Some after"
  shows "after = (if updateScaleOf calculateScale pageSize newScale s = scale (stateRef s)
                  then before else NotRenderedYet)"
  using assms reset_status [OF assms(1)] by (simp add: zoom_queue split: if_splits)

lemma rotate_status:
  assumes "statusOf (renderQueue s) i = Some before"
    and "statusOf (renderQueue (rotate plugins direction s)) i = Some after"
  shows "after = NotRenderedYet"
  using assms reset_status [OF assms(1)] by (simp add: rotate_queue)

lemma resize_status:
  assumes "statusOf (renderQueue s) i = Some before"
    and "statusOf (renderQueue (handlePagesResize calculateScale pageSize plugins s)) i = Some after"
  shows "after = before \<or> after = NotRenderedYet"
  using assms reset_status [OF assms(1)] handlePagesResize_queue [of calculateScale pageSize plugins s]
  by auto

lemma effect_status:
  assumes "statusOf (renderQueue s) i = Some before"
    and "statusOf (renderQueue (rangeEffect plugins v s)) i = Some after"
  shows "after = before \<or> (before = NotRenderedYet \<and> after = Rendering)"
  using assms rangeEffect_status [of plugins v s i] by auto

text \<open>
  C3, as stated, fails twice. \<open>rotatePage\<close> marks the rotated page as rendering whatever
  its state, so a rendered page goes back to rendering. And \<open>handlePageRenderCompleted\<close>
  marks the page it is called for as rendered whatever its state: when \<open>rotate\<close> has reset
  the page while its render was under way, the completion takes it from not-rendered to
  rendered.
\<close>

theorem render_lifecycle_counterexample:
  "statusOf (renderQueue sampleInner) 0 = Some Rendered
   \<and> statusOf (renderQueue
        (perform fitScale \<lparr>pageHeight = 800, pageWidth = 600\<rparr> 4 [pagePlugin]
           (CallRotatePage 0 Forward) sampleInner)) 0 = Some Rendering
   \<and> \<not> lifecycleStep (CallRotatePage 0 Forward :: string Call) Rendered Rendering
   \<and> statusOf (renderQueue (renderNextPage sampleInner)) 1 = Some Rendering
   \<and> statusOf (renderQueue (rotate [pagePlugin] Forward (renderNextPage sampleInner))) 1
       = Some NotRenderedYet
   \<and> statusOf (renderQueue
        (perform fitScale \<lparr>pageHeight = 800, pageWidth = 600\<rparr> 4 [pagePlugin]
           (CallHandlePageRenderCompleted 1)
           (rotate [pagePlugin] Forward (renderNextPage sampleInner)))) 1 = Some Rendered
   \<and> \<not> lifecycleStep (CallHandlePageRenderCompleted 1 :: string Call) NotRenderedYet Rendered"
proof -
  let ?s1 = "renderNextPage sampleInner"
  let ?s2 = "rotate [pagePlugin] Forward ?s1"
  have a: "statusOf (renderQueue sampleInner) 0 = Some Rendered"
    by (simp add: statusOf_def sampleInner_def sampleQueue_def)
  have b: "statusOf (renderQueue
        (perform fitScale \<lparr>pageHeight = 800, pageWidth = 600\<rparr> 4 [pagePlugin]
           (CallRotatePage 0 Forward) sampleInner)) 0 = Some Rendering"
    by (simp add: rotatePage_queue statusOf_markRendering sampleInner_def sampleQueue_def)
  have c: "\<not> lifecycleStep (CallRotatePage 0 Forward :: string Call) Rendered Rendering"
    by (simp add: lifecycleStep_def)
  have r1: "isInRange 1 (renderQueue sampleInner)"
    by (simp add: isInRange_def sampleInner_def sampleQueue_def)
  have d: "statusOf (renderQueue ?s1) 1 = Some Rendering"
    using r1 by (simp add: renderNextPage_status_eq sample_highest)
  have e: "statusOf (renderQueue ?s2) 1 = Some NotRenderedYet"
    using reset_status [OF d] by (simp add: rotate_queue)
  have "statusOf (renderQueue (handlePageRenderCompleted 1 ?s2)) 1 = Some Rendered"
    using completed_status [of 1 1 ?s2] e by simp
  then have f: "statusOf (renderQueue
        (perform fitScale \<lparr>pageHeight = 800, pageWidth = 600\<rparr> 4 [pagePlugin]
           (CallHandlePageRenderCompleted 1) ?s2)) 1 = Some Rendered"
    by simp
  have g: "\<not> lifecycleStep (CallHandlePageRenderCompleted 1 :: string Call) NotRenderedYet Rendered"
    by (simp add: lifecycleStep_def)
  from a b c d e f g show ?thesis by blast
qed

text \<open>
  C3, amended. A call changes the render state of a page only as follows.
  \<open>renderNextPage\<close>, also at the end of \<open>handlePageRenderCompleted\<close> and of the last effect,
  moves the page it chooses from not-rendered to rendering and no other page.
  \<open>handlePageRenderCompleted\<close> marks the completed page as rendered, from rendering in the
  regular course but from any state it is in, so also straight from not-rendered when a
  reset came while the render was under way, and then schedules the next page. \<open>rotate\<close>
  resets every page to not-rendered, and so does \<open>zoom\<close> unless the scale stays the same;
  there is no other way back to not-rendered. \<open>rotatePage\<close> puts the rotated page into
  rendering from any state, a rendered page included. Apart from the two additions, every
  change is a step of the lifecycle not-rendered, rendering, rendered or a global reset.
\<close>

theorem render_lifecycle:
  assumes "statusOf (renderQueue s) i = Some before"
    and "statusOf (renderQueue (perform calculateScale pageSize numPages plugins call s)) i = Some after"
  shows "(lifecycleStep call before after
          \<or> (\<exists>direction. call = CallRotatePage i direction \<and> before = Rendered \<and> after = Rendering)
          \<or> (call = CallHandlePageRenderCompleted i \<and> before = NotRenderedYet \<and> after = Rendered))
    \<and> (before \<noteq> Rendered \<and> after = Rendered \<longrightarrow> call = CallHandlePageRenderCompleted i)
    \<and> (call = CallHandlePageRenderCompleted i \<longrightarrow> after = Rendered)
    \<and> (\<forall>p. call = CallHandlePageRenderCompleted p \<and> i \<noteq> p \<longrightarrow>
          after = (if i = getHighestPriorityPage (markRendered p (renderQueue s))
                      \<and> isInRange i (renderQueue s)
                   then Rendering else before)
          \<and> (after \<noteq> before \<longrightarrow> before = NotRenderedYet))
    \<and> (call = CallRenderNextPage \<longrightarrow>
          after = (if i = getHighestPriorityPage (renderQueue s) \<and> isInRange i (renderQueue s)
                   then Rendering else before)
          \<and> (after \<noteq> before \<longrightarrow> before = NotRenderedYet))
    \<and> (before \<noteq> NotRenderedYet \<and> after = NotRenderedYet \<longrightarrow> globalReset call)
    \<and> ((\<exists>direction. call = CallRotate direction) \<longrightarrow> after = NotRenderedYet)
    \<and> (\<forall>newScale. call = CallZoom newScale \<longrightarrow>
          after = (if updateScaleOf calculateScale pageSize newScale s = scale (stateRef s)
                   then before else NotRenderedYet))
    \<and> (before = NotRenderedYet \<and> after = Rendering \<longrightarrow>
          call = CallRenderNextPage \<or> (\<exists>p. call = CallHandlePageRenderCompleted p)
          \<or> (\<exists>v. call = CallRangeEffect v) \<or> (\<exists>direction. call = CallRotatePage i direction))
    \<and> (before = Rendered \<and> after = Rendering \<longrightarrow> (\<exists>direction. call = CallRotatePage i direction))
    \<and> ((\<exists>direction. call = CallRotatePage i direction) \<longrightarrow> after = Rendering)"
proof (cases call)
  case CallRenderNextPage
  with assms have a: "statusOf (renderQueue (renderNextPage s)) i = Some after" by simp
  from next_status [OF assms(1) a] show ?thesis
    using CallRenderNextPage by (auto simp: lifecycleStep_def)
next
  case (CallHandlePageRenderCompleted p)
  with assms have a: "statusOf (renderQueue (handlePageRenderCompleted p s)) i = Some after" by simp
  from completed_next_status [OF assms(1) a] show ?thesis
    using CallHandlePageRenderCompleted by (cases before) (auto simp: lifecycleStep_def)
next
  case (CallRotate direction)
  with assms have a: "statusOf (renderQueue (rotate plugins direction s)) i = Some after" by simp
  from rotate_status [OF assms(1) a] show ?thesis
    using CallRotate by (auto simp: lifecycleStep_def)
next
  case (CallRotatePage p direction)
  with assms have a: "statusOf (renderQueue (rotatePage plugins p direction s)) i = Some after" by simp
  from rotatePage_status [OF assms(1) a] show ?thesis
    using CallRotatePage by (cases before) (auto simp: lifecycleStep_def)
next
  case (CallZoom newScale)
  with assms have a: "statusOf (renderQueue (zoom calculateScale pageSize plugins newScale s)) i = Some after"
    by simp
  from zoom_status [OF assms(1) a] show ?thesis
    using CallZoom by (auto simp: lifecycleStep_def)
next
  case CallHandlePagesResize
  with assms have a: "statusOf (renderQueue (handlePagesResize calculateScale pageSize plugins s)) i = Some after"
    by simp
  from resize_status [OF assms(1) a] show ?thesis
    using CallHandlePagesResize by (auto simp: lifecycleStep_def)
next
  case (CallSwitchScrollMode mode)
  then show ?thesis using assms by (auto simp: lifecycleStep_def other_queue)
next
  case (CallJumpToPage p)
  then show ?thesis using assms by (auto simp: lifecycleStep_def other_queue)
next
  case (CallExecuteNamedAction action)
  then show ?thesis using assms by (auto simp: lifecycleStep_def other_queue)
next
  case (CallSetViewerState vs)
  then show ?thesis using assms by (auto simp: lifecycleStep_def other_queue)
next
  case (CallRangeEffect v)
  with assms have a: "statusOf (renderQueue (rangeEffect plugins v s)) i = Some after" by simp
  from effect_status [OF assms(1) a] show ?thesis
    using CallRangeEffect by (auto simp: lifecycleStep_def)
qed

lemma sample_scheduled: "statusOf (renderQueue (renderNextPage sampleInner)) 1 = Some Rendering"
proof -
  have "isInRange 1 (renderQueue sampleInner)"
    by (simp add: isInRange_def sampleInner_def sampleQueue_def)
  then show ?thesis by (simp add: renderNextPage_status_eq sample_highest)
qed

theorem render_lifecycle_witness:
  "statusOf (renderQueue (renderNextPage sampleInner)) 1 = Some Rendering
   \<and> statusOf (renderQueue
        (perform fitScale \<lparr>pageHeight = 800, pageWidth = 600\<rparr> 4 [pagePlugin]
           (CallHandlePageRenderCompleted 1) (renderNextPage sampleInner))) 1 = Some Rendered
   \<and> lifecycleStep (CallHandlePageRenderCompleted 1 :: string Call) Rendering Rendered
   \<and> statusOf (renderQueue
        (perform fitScale \<lparr>pageHeight = 800, pageWidth = 600\<rparr> 4 [pagePlugin]
           (CallRotate Backward) (renderNextPage sampleInner))) 1 = Some NotRenderedYet
   \<and> globalReset (CallRotate Backward :: string Call)"
proof -
  let ?s1 = "renderNextPage sampleInner"
  have a: "statusOf (renderQueue ?s1) 1 = Some Rendering"
    by (rule sample_scheduled)
  have "statusOf (renderQueue (handlePageRenderCompleted 1 ?s1)) 1 = Some Rendered"
    using completed_status [of 1 1 ?s1] a by simp
  then have b: "statusOf (renderQueue
        (perform fitScale \<lparr>pageHeight = 800, pageWidth = 600\<rparr> 4 [pagePlugin]
           (CallHandlePageRenderCompleted 1) ?s1)) 1 = Some Rendered"
    by simp
  have c: "statusOf (renderQueue
        (perform fitScale \<lparr>pageHeight = 800, pageWidth = 600\<rparr> 4 [pagePlugin]
           (CallRotate Backward) ?s1)) 1 = Some NotRenderedYet"
    using reset_status [OF a] by (simp add: rotate_queue)
  have l: "lifecycleStep (CallHandlePageRenderCompleted 1 :: string Call) Rendering Rendered"
    using render_lifecycle [OF a b] by simp
  have g: "globalReset (CallRotate Backward :: string Call)"
    using render_lifecycle [OF a c] by simp
  from a b c l g show ?thesis by blast
qed

subsection \<open>Progress of rendering\<close>





























end
